theory Spec2Isabelle
  imports Main "HOL-Library.Word"
begin

section \<open>Visual regression helpers of the test suite (utilities/fileSystemHelpers.js)\<close>

text \<open>
  The helpers are JavaScript running on Node. The embedding makes their effects explicit:
  the file system, the console and a history of file events are fields of a record that
  every function takes and returns; an exception is the left summand of a sum; a promise
  is the value it settles with. The clock (\<open>Date.now()\<close>) and the temp directory
  (\<open>os.tmpdir()\<close>) are arguments. Paths are POSIX paths.
\<close>

subsection \<open>Values, errors, the world\<close>

type_synonym path = string
type_synonym byte = "8 word"

text \<open>A decoded image, as pngjs holds it: width, height and the RGBA bytes.\<close>

record raster =
  width :: nat
  height :: nat
  data :: "byte list"

text \<open>
  What a file holds. The PNG encoding itself is not modelled: a file either encodes a
  raster or holds other bytes (a JPEG, a truncated download).
\<close>

datatype content = Png raster | Raw "byte list"

datatype node = File content | Dir

datatype errno = ENOENT | EISDIR | ENOSPC

text \<open>
  The errors of JavaScript that reach this code: the one it constructs itself in the
  downloader, the system errors of Node's \<open>fs\<close> (code, system call, path), the
  errors of the network, the TypeError of a property read on \<open>undefined\<close>, and
  the errors the image libraries throw.
\<close>

datatype js_error =
    DownloadFailed string int
  | SysError errno string path
  | NetError string
  | TypeError string
  | LibError string

text \<open>
  A history of what happened to files, kept beside the state: a file opened for
  writing with flag \<open>w\<close> (created, or truncated when it was there), a file
  unlinked, a file attached to the test report under a name.
\<close>

datatype fs_event = Created path | Deleted path | Attached string path

text \<open>
  The world of a run: the file system, the console, the history, and the event loop. A
  write stream that has been started and has not yet opened its file is in
  \<open>pending\<close>, with the number of turns of the event loop it still waits. How long
  a stream takes to open its file is not in the code's hands: \<open>stream_latency\<close> is
  the number of turns a newly started stream waits. \<open>uncaught\<close> holds the
  exceptions that nothing caught; with the first, Node terminates the process.
\<close>

record world =
  files :: "path \<Rightarrow> node option"
  console :: "string list"
  events :: "fs_event list"
  pending :: "(nat \<times> path \<times> content) list"
  stream_latency :: nat
  uncaught :: "js_error list"

text \<open>A settled promise.\<close>

datatype 'a outcome = Resolved 'a | Rejected js_error

subsection \<open>Numbers in template literals\<close>

text \<open>
  \<open>`${n}`\<close> for an integral number below \<open>10^21\<close> in magnitude is its decimal
  numeral, with a minus sign when negative. \<open>Date.now()\<close> and HTTP status codes are
  in that range.
\<close>

definition digit_char :: "nat \<Rightarrow> char" where
  "digit_char d = ''0123456789'' ! d"

fun digits :: "nat \<Rightarrow> string" where
  "digits n = (if n < 10 then [digit_char n] else digits (n div 10) @ [digit_char (n mod 10)])"

declare digits.simps [simp del]

definition number_toString :: "int \<Rightarrow> string" where
  "number_toString i = (if i < 0 then CHR ''-'' # digits (nat (- i)) else digits (nat i))"

fun errno_name :: "errno \<Rightarrow> string" where
  "errno_name ENOENT = ''ENOENT: no such file or directory''"
| "errno_name EISDIR = ''EISDIR: illegal operation on a directory''"
| "errno_name ENOSPC = ''ENOSPC: no space left on device''"

fun message :: "js_error \<Rightarrow> string" where
  "message (DownloadFailed url status) =
     ''Failed to download image from '' @ url @ '', status code: '' @ number_toString status"
| "message (SysError c syscall p) =
     errno_name c @ '', '' @ syscall @ '' '' @ [CHR 0x27] @ p @ [CHR 0x27]"
| "message (NetError m) = m"
| "message (TypeError m) = m"
| "message (LibError m) = m"

definition console_error :: "string \<Rightarrow> world \<Rightarrow> world" where
  "console_error m w = w\<lparr>console := console w @ [m]\<rparr>"

subsection \<open>path.join and path.basename (POSIX)\<close>

fun split_on :: "char \<Rightarrow> string \<Rightarrow> string list" where
  "split_on c [] = [[]]"
| "split_on c (x # xs) =
     (if x = c then [] # split_on c xs
      else (case split_on c xs of [] \<Rightarrow> [[x]] | s # ss \<Rightarrow> (x # s) # ss))"

fun join_with :: "string \<Rightarrow> string list \<Rightarrow> string" where
  "join_with sep [] = []"
| "join_with sep [s] = s"
| "join_with sep (s # t # ss) = s @ sep @ join_with sep (t # ss)"

text \<open>
  Node's \<open>normalizeString\<close>, one segment at a time; the segments kept so far are
  held last first. Empty segments and \<open>.\<close> are dropped; \<open>..\<close> removes the last
  kept segment, and is kept itself only above the root of a relative path.
\<close>

fun normalize_step :: "bool \<Rightarrow> string list \<Rightarrow> string \<Rightarrow> string list" where
  "normalize_step allowAboveRoot st seg =
     (if seg = [] \<or> seg = ''.'' then st
      else if seg = ''..'' then
        (case st of
           [] \<Rightarrow> (if allowAboveRoot then [''..''] else [])
         | s # rest \<Rightarrow>
             (if s = ''..'' then (if allowAboveRoot then ''..'' # st else st) else rest))
      else seg # st)"

definition posix_normalize :: "path \<Rightarrow> path" where
  "posix_normalize p =
     (if p = [] then ''.''
      else
        let isAbsolute = (hd p = CHR ''/'');
            trailingSeparator = (last p = CHR ''/'');
            body = join_with ''/''
                     (rev (foldl (normalize_step (\<not> isAbsolute)) [] (split_on CHR ''/'' p)))
        in if body = [] then
             (if isAbsolute then ''/'' else if trailingSeparator then ''./'' else ''.'')
           else
             (let b = (if trailingSeparator then body @ ''/'' else body)
              in if isAbsolute then CHR ''/'' # b else b))"

definition path_join :: "string list \<Rightarrow> path" where
  "path_join args =
     (let joined = join_with ''/'' (filter (\<lambda>a. a \<noteq> []) args)
      in if joined = [] then ''.'' else posix_normalize joined)"

definition path_basename :: "path \<Rightarrow> string" where
  "path_basename p =
     (case filter (\<lambda>s. s \<noteq> []) (split_on CHR ''/'' p) of
        [] \<Rightarrow> []
      | s # ss \<Rightarrow> last (s # ss))"

subsection \<open>Temp-file store\<close>

record project =
  name :: string
  defaultBrowserType :: "string option"

text \<open>
  \<open>testInfo\<close> as the helpers read it: \<open>testInfo.project\<close>, which a caller may
  leave undefined (the \<open>try\<close> of \<open>createUniqueFileName\<close> is there for it).
\<close>

record testInfo =
  project :: "project option"

text \<open>
  \<open>createUniqueFileName(testInfo, filename)\<close>, with the value of \<open>Date.now()\<close>
  as an argument. \<open>None\<close> is \<open>undefined\<close>: the \<open>catch\<close> logs and falls off
  the end of the function.
\<close>

definition createUniqueFileName ::
  "testInfo \<Rightarrow> int \<Rightarrow> string \<Rightarrow> world \<Rightarrow> string option \<times> world" where
  "createUniqueFileName ti timestamp filename w =
     (case project ti of
        None \<Rightarrow>
          (None, console_error (''Error while creating unique file name: '' @
             message (TypeError ''Cannot read properties of undefined (reading 'name')'')) w)
      | Some p \<Rightarrow>
          (Some (name p @ ''_'' @ number_toString timestamp @ ''_'' @ filename), w))"

text \<open>\<open>getTempFilePath(fileName)\<close>, with the value of \<open>os.tmpdir()\<close> as an argument.\<close>

definition getTempFilePath :: "path \<Rightarrow> string \<Rightarrow> path" where
  "getTempFilePath tmpDir fileName = path_join [tmpDir, fileName]"

text \<open>
  A file name for the proofs about \<open>getTempFilePath\<close>: what \<open>path.join\<close>
  makes of the temp directory and the part \<open>p\<close> of a name, when the rest of the
  name has no separator.
\<close>

definition temp_stem :: "path \<Rightarrow> string \<Rightarrow> string" where
  "temp_stem tmpDir p =
     (let pre = (if tmpDir = [] then p else tmpDir @ ''/'' @ p);
          isAbsolute = (pre \<noteq> [] \<and> hd pre = CHR ''/'');
          st = foldl (normalize_step (\<not> isAbsolute)) [] (butlast (split_on CHR ''/'' pre));
          x = (if st = [] then [] else join_with ''/'' (rev st) @ ''/'')
      in (if isAbsolute then ''/'' else []) @ x @ last (split_on CHR ''/'' pre))"

subsection \<open>Node's fs on the world\<close>

text \<open>
  Reading (\<open>fs.readFile\<close>, \<open>fs.readFileSync\<close>), writing with flag \<open>w\<close>
  (\<open>fs.writeFile\<close>, the open of a write stream) and \<open>unlink\<close>. In the
  downloader, whose promise settles from the callbacks of its streams, the writes of the
  stream and the asynchronous \<open>fs.unlink\<close> take effect where the code issues them.
\<close>

definition fs_read :: "path \<Rightarrow> world \<Rightarrow> js_error + content" where
  "fs_read p w =
     (case files w p of
        None \<Rightarrow> Inl (SysError ENOENT ''open'' p)
      | Some Dir \<Rightarrow> Inl (SysError EISDIR ''read'' p)
      | Some (File c) \<Rightarrow> Inr c)"

definition fs_write :: "path \<Rightarrow> content \<Rightarrow> world \<Rightarrow> js_error + world" where
  "fs_write p c w =
     (case files w p of
        Some Dir \<Rightarrow> Inl (SysError EISDIR ''open'' p)
      | _ \<Rightarrow> Inr (w\<lparr>files := (files w)(p \<mapsto> File c), events := events w @ [Created p]\<rparr>))"

definition fs_unlink :: "path \<Rightarrow> world \<Rightarrow> js_error + world" where
  "fs_unlink p w =
     (case files w p of
        None \<Rightarrow> Inl (SysError ENOENT ''unlink'' p)
      | Some Dir \<Rightarrow> Inl (SysError EISDIR ''unlink'' p)
      | Some (File c) \<Rightarrow>
          Inr (w\<lparr>files := (files w)(p := None), events := events w @ [Deleted p]\<rparr>))"

text \<open>
  A write stream that nobody waits for. \<open>fs.createWriteStream\<close> returns at once
  and the file is not there yet; the stream opens (creates or truncates) and fills it in a
  later turn of the event loop. The file appears with its whole content: a partly written
  file is not modelled. A stream that fails to open its file emits \<open>error\<close>; with
  no listener for it the error is an uncaught exception, the process is terminated and
  what else was pending is lost.
\<close>

definition start_write_stream :: "path \<Rightarrow> content \<Rightarrow> world \<Rightarrow> world" where
  "start_write_stream p c w = w\<lparr>pending := pending w @ [(stream_latency w, p, c)]\<rparr>"

fun land_streams :: "(nat \<times> path \<times> content) list \<Rightarrow> world \<Rightarrow> world" where
  "land_streams [] w = w"
| "land_streams ((k, p, c) # rest) w =
     (if 0 < k then land_streams rest (w\<lparr>pending := pending w @ [(k - 1, p, c)]\<rparr>)
      else
        (case fs_write p c w of
           Inl error \<Rightarrow> w\<lparr>uncaught := uncaught w @ [error]\<rparr>
         | Inr w' \<Rightarrow> land_streams rest w'))"

text \<open>
  One turn of the event loop, which an \<open>await\<close> of the running function gives
  room to: the streams that have waited long enough open their files, the others wait
  one turn less.
\<close>

definition event_loop_turn :: "world \<Rightarrow> world" where
  "event_loop_turn w = land_streams (pending w) (w\<lparr>pending := []\<rparr>)"

text \<open>The world once the event loop has nothing left to do: every pending stream has run.\<close>

definition event_loop_idle :: "world \<Rightarrow> world" where
  "event_loop_idle w =
     land_streams (map (\<lambda>(k, p, c). (0, p, c)) (pending w)) (w\<lparr>pending := []\<rparr>)"

text \<open>
  \<open>await f\<close> for an operation \<open>f\<close> of the test framework: the event loop
  turns, and the operation completes, unless the process was terminated.
\<close>

definition awaited ::
  "(world \<Rightarrow> (js_error + 'a) \<times> world) \<Rightarrow> world \<Rightarrow> (js_error + 'a) \<times> world" where
  "awaited f w =
     (let w' = event_loop_turn w
      in case uncaught w' of [] \<Rightarrow> f w' | error # _ \<Rightarrow> (Inl error, w'))"

text \<open>\<open>checkFileExists(filePath)\<close>: \<open>fs.existsSync\<close> does not throw on a string.\<close>

definition checkFileExists :: "path \<Rightarrow> world \<Rightarrow> bool" where
  "checkFileExists filePath w = (files w filePath \<noteq> None)"

text \<open>\<open>deleteTempFile(filePath)\<close>: the error of \<open>unlinkSync\<close> is logged and dropped.\<close>

definition deleteTempFile :: "path \<Rightarrow> world \<Rightarrow> world" where
  "deleteTempFile filePath w =
     (case fs_unlink filePath w of
        Inl error \<Rightarrow> console_error (''Error while deleting the file: '' @ message error) w
      | Inr w' \<Rightarrow> w')"

text \<open>
  \<open>readFile(filePath)\<close> and \<open>writeFile(filePath, data)\<close>, as the promises they
  return settle. \<open>Resolved None\<close> is a promise resolved with \<open>undefined\<close>.
\<close>

definition readFile :: "path \<Rightarrow> world \<Rightarrow> content option outcome \<times> world" where
  "readFile filePath w =
     (case fs_read filePath w of
        Inl error \<Rightarrow>
          (Resolved None, console_error (''Error while reading the file: '' @ message error) w)
      | Inr fileBuffer \<Rightarrow> (Resolved (Some fileBuffer), w))"

definition writeFile :: "path \<Rightarrow> content \<Rightarrow> world \<Rightarrow> unit outcome \<times> world" where
  "writeFile filePath d w =
     (case fs_write filePath d w of
        Inl error \<Rightarrow>
          (Resolved (), console_error (''Error while writing file: '' @ message error) w)
      | Inr w' \<Rightarrow> (Resolved (), w'))"

subsection \<open>Remote image fetcher\<close>

text \<open>
  What \<open>https.get\<close> delivers: an error of the request before any response, or a
  response with its status code, its \<open>content-type\<close> header (which may be absent)
  and the course of the body's transfer: all of it, or some bytes and then an error of
  the network or of the disk.
\<close>

datatype stream_error = Network string | Disk errno

datatype transfer = Completed content | Broken "byte list" stream_error

record response =
  statusCode :: int
  contentType :: "string option"
  body :: transfer

datatype https_get = RequestError string | Response response

fun stream_js_error :: "path \<Rightarrow> stream_error \<Rightarrow> js_error" where
  "stream_js_error p (Network m) = NetError m"
| "stream_js_error p (Disk c) = SysError c ''write'' p"

text \<open>\<open>/^image\//.test(h)\<close>; \<open>test\<close> turns \<open>undefined\<close> into the string.\<close>

definition image_content_type :: "string option \<Rightarrow> bool" where
  "image_content_type h =
     (let s = (case h of None \<Rightarrow> ''undefined'' | Some t \<Rightarrow> t) in take 6 s = ''image/'')"

text \<open>
  The inner function \<open>cleanupAndReject(error)\<close>: \<open>fs.unlink\<close> with a callback that
  ignores the outcome, the log line, the rejection.
\<close>

definition cleanupAndReject :: "path \<Rightarrow> js_error \<Rightarrow> world \<Rightarrow> path outcome \<times> world" where
  "cleanupAndReject filePath error w =
     (let w1 = (case fs_unlink filePath w of Inl _ \<Rightarrow> w | Inr w' \<Rightarrow> w')
      in (Rejected error,
          console_error (''Error while deleting file after a previous error: '' @ message error) w1))"

text \<open>
  The response callback after the validation: the write stream opens the temp file, the
  pipeline fills it, and the promise settles when the pipeline calls back or a stream
  emits an error. A handler that runs again after the promise has settled repeats the
  unlink and the log line; the model runs it once.
\<close>

definition streamToTempFile :: "path \<Rightarrow> transfer \<Rightarrow> world \<Rightarrow> path outcome \<times> world" where
  "streamToTempFile filePath t w =
     (case t of
        Completed c \<Rightarrow>
          (case fs_write filePath c w of
             Inl error \<Rightarrow> cleanupAndReject filePath error w
           | Inr w1 \<Rightarrow> (Resolved filePath, w1))
      | Broken partial err \<Rightarrow>
          (case fs_write filePath (Raw partial) w of
             Inl error \<Rightarrow> cleanupAndReject filePath error w
           | Inr w1 \<Rightarrow> cleanupAndReject filePath (stream_js_error filePath err) w1))"

text \<open>\<open>downloadImageFromUrlToTempDir(url)\<close>, given what \<open>https.get\<close> delivers.\<close>

definition downloadImageFromUrlToTempDir ::
  "path \<Rightarrow> string \<Rightarrow> https_get \<Rightarrow> world \<Rightarrow> path outcome \<times> world" where
  "downloadImageFromUrlToTempDir tmpDir url got w =
     (case got of
        RequestError m \<Rightarrow>
          (Rejected (NetError m),
           console_error (''Error while downloading image from url to the system's directory for temporary files: '' @ m) w)
      | Response r \<Rightarrow>
          if statusCode r < 200 \<or> statusCode r \<ge> 300 \<or> \<not> image_content_type (contentType r)
          then (Rejected (DownloadFailed url (statusCode r)), w)
          else streamToTempFile (getTempFilePath tmpDir ''test_picture.jpg'') (body r) w)"

subsection \<open>Image libraries and the test report\<close>

type_synonym rgba = "byte \<times> byte \<times> byte \<times> byte"

fun rgba_bytes :: "rgba \<Rightarrow> byte list" where
  "rgba_bytes (r, g, b, a) = [r, g, b, a]"

definition pixel_at :: "byte list \<Rightarrow> nat \<Rightarrow> rgba" where
  "pixel_at d i = (d ! (4 * i), d ! (4 * i + 1), d ! (4 * i + 2), d ! (4 * i + 3))"

text \<open>
  The numeric parts of the libraries, which are floating point, are parameters: whether
  the perceptual distance of two pixels exceeds the threshold 0.19, how a matched pixel
  is dimmed in the diff image, and the pixel a resampling to a given width and height
  puts at a given index.
\<close>

record libs =
  exceeds :: "rgba \<Rightarrow> rgba \<Rightarrow> bool"
  dimmed :: "rgba \<Rightarrow> rgba"
  resample :: "raster \<Rightarrow> nat \<Rightarrow> nat \<Rightarrow> nat \<Rightarrow> rgba"

text \<open>
  Modelled from the spec: \<open>PNG.sync.read\<close> of pngjs, which is not part of the
  repository. It decodes PNG bytes into a RasterImage (section 3: positive width and
  height, a buffer of width x height x 4 bytes) and throws on anything else.
\<close>

definition PNG_sync_read :: "content \<Rightarrow> js_error + raster" where
  "PNG_sync_read c =
     (case c of
        Raw _ \<Rightarrow> Inl (LibError ''Invalid file signature'')
      | Png r \<Rightarrow>
          if 0 < width r \<and> 0 < height r \<and> length (data r) = width r * height r * 4
          then Inr r else Inl (LibError ''Invalid PNG data''))"

text \<open>
  Modelled from the spec: \<open>sharp(buffer).resize(w, h).png().toBuffer()\<close>, which is
  not part of the repository. Section 4.3: it resamples to exactly the expected width and
  height. Only PNG input is modelled; the orchestrator calls it on bytes that pngjs has
  decoded.
\<close>

definition sharp_resize :: "libs \<Rightarrow> content \<Rightarrow> nat \<Rightarrow> nat \<Rightarrow> js_error + content" where
  "sharp_resize L c w h =
     (case PNG_sync_read c of
        Inl _ \<Rightarrow> Inl (LibError ''Input buffer contains unsupported image format'')
      | Inr r \<Rightarrow>
          Inr (Png \<lparr>width = w, height = h,
                    data = concat (map (\<lambda>i. rgba_bytes (resample L r w h i)) [0..<w * h])\<rparr>))"

text \<open>
  Modelled from the spec: \<open>pixelmatch(img1, img2, output, width, height, options)\<close>,
  which is not part of the repository. Section 4.4: the two images have the same size;
  a pixel is mismatched when its perceptual distance exceeds the threshold; the diff image
  has the same size, mismatched pixels in a distinguishing colour and matched ones dimmed;
  the count of mismatched pixels is returned. The result here is the count and the bytes
  written to \<open>output\<close>.
\<close>

definition pixelmatch ::
  "libs \<Rightarrow> byte list \<Rightarrow> byte list \<Rightarrow> nat \<Rightarrow> nat \<Rightarrow> js_error + (nat \<times> byte list)" where
  "pixelmatch L img1 img2 w h =
     (if length img1 \<noteq> length img2 then Inl (LibError ''Image sizes do not match.'')
      else if length img1 \<noteq> w * h * 4
      then Inl (LibError ''Image data size does not match width/height.'')
      else
        Inr (length (filter (\<lambda>i. exceeds L (pixel_at img1 i) (pixel_at img2 i)) [0..<w * h]),
             concat (map (\<lambda>i. rgba_bytes
                           (if exceeds L (pixel_at img1 i) (pixel_at img2 i)
                            then (255, 0, 0, 255) else dimmed L (pixel_at img1 i)))
                       [0..<w * h])))"

text \<open>
  Modelled from the spec: \<open>testInfo.attach(name, {path, contentType})\<close> of the test
  framework, which is not part of the repository. Section 4.5: it attaches the artifact
  at a path to the test report. It fails when it cannot read the file.
\<close>

definition testInfo_attach ::
  "testInfo \<Rightarrow> string \<Rightarrow> path \<Rightarrow> world \<Rightarrow> (js_error + unit) \<times> world" where
  "testInfo_attach ti attachmentName p w =
     (case fs_read p w of
        Inl error \<Rightarrow> (Inl error, w)
      | Inr _ \<Rightarrow> (Inr (), w\<lparr>events := events w @ [Attached attachmentName p]\<rparr>))"

text \<open>\<open>attachImage(testInfo, imagePath)\<close>.\<close>

definition attachImage :: "testInfo \<Rightarrow> path \<Rightarrow> world \<Rightarrow> (js_error + unit) \<times> world" where
  "attachImage ti imagePath w = testInfo_attach ti (path_basename imagePath) imagePath w"

text \<open>
  \<open>writeDataToFile(data, fileName)\<close>: the packed PNG is piped into a write stream
  that is only started, with no listener for its errors, and the path is returned at once:
  the file is not there when the function returns.
\<close>

definition writeDataToFile :: "path \<Rightarrow> raster \<Rightarrow> string \<Rightarrow> world \<Rightarrow> path \<times> world" where
  "writeDataToFile tmpDir d fileName w =
     (let filePath = getTempFilePath tmpDir fileName
      in (filePath, start_write_stream filePath (Png d) w))"

subsection \<open>Visual regression orchestrator\<close>

record sharedContext =
  isMobile :: "bool option"

definition and_then :: "js_error + 'a \<Rightarrow> ('a \<Rightarrow> js_error + 'b) \<Rightarrow> js_error + 'b" where
  "and_then r f = (case r of Inl e \<Rightarrow> Inl e | Inr x \<Rightarrow> f x)"

text \<open>Lines 130 to 136: \<open>isMobile || false\<close> and the choice of the baseline.\<close>

definition isMobile_or_false :: "sharedContext \<Rightarrow> bool" where
  "isMobile_or_false ctx = (case isMobile ctx of None \<Rightarrow> False | Some b \<Rightarrow> b)"

definition expectedBaselinePath :: "string option \<Rightarrow> bool \<Rightarrow> path" where
  "expectedBaselinePath browserType mobile =
     (if mobile \<and> browserType = Some ''webkit''
      then ''./tests/test-data/baseline-images/baseline_homepage_logo_Webkit_Mobile.png''
      else ''./tests/test-data/baseline-images/baseline_homepage_logo.png'')"

text \<open>Lines 143 to 160: the screenshot is resized when its size is not the baseline's.\<close>

definition resizeIfNeeded ::
  "libs \<Rightarrow> path \<Rightarrow> raster \<Rightarrow> raster \<Rightarrow> world \<Rightarrow> js_error + raster" where
  "resizeIfNeeded L actualScreenshotPath expectedBaseline actualScreenshotOriginalSize w =
     (if width expectedBaseline \<noteq> width actualScreenshotOriginalSize \<or>
         height expectedBaseline \<noteq> height actualScreenshotOriginalSize
      then
        and_then (fs_read actualScreenshotPath w) (\<lambda>actualScreenshotOriginalBuffer.
        and_then (sharp_resize L actualScreenshotOriginalBuffer
                    (width expectedBaseline) (height expectedBaseline))
          PNG_sync_read)
      else Inr actualScreenshotOriginalSize)"

text \<open>
  Lines 127 to 175, which only read: the path of the baseline, the count of mismatched
  pixels and the diff image, or the exception thrown on the way.
\<close>

definition comparePixels ::
  "libs \<Rightarrow> path \<Rightarrow> testInfo \<Rightarrow> sharedContext \<Rightarrow> world \<Rightarrow> js_error + (path \<times> nat \<times> raster)" where
  "comparePixels L actualScreenshotPath ti ctx w =
     (case project ti of
        None \<Rightarrow> Inl (TypeError ''Cannot read properties of undefined (reading 'use')'')
      | Some p \<Rightarrow>
          (let baselinePath = expectedBaselinePath (defaultBrowserType p) (isMobile_or_false ctx)
           in
           and_then (fs_read baselinePath w) (\<lambda>b.
           and_then (PNG_sync_read b) (\<lambda>expectedBaseline.
           and_then (fs_read actualScreenshotPath w) (\<lambda>a.
           and_then (PNG_sync_read a) (\<lambda>actualScreenshotOriginalSize.
           and_then (resizeIfNeeded L actualScreenshotPath expectedBaseline
                       actualScreenshotOriginalSize w) (\<lambda>actualScreenshot.
           and_then (pixelmatch L (data expectedBaseline) (data actualScreenshot)
                       (width expectedBaseline) (height expectedBaseline)) (\<lambda>(n, out).
           Inr (baselinePath, n,
                \<lparr>width = width expectedBaseline, height = height expectedBaseline,
                 data = out\<rparr>)))))))))"

text \<open>
  Lines 177 to 188, the branch of a positive count: the write of the diff image to a temp
  file is started, the three images are attached, each attach awaited before the next,
  and the diff file is deleted with \<open>unlinkSync\<close>. With no name
  (\<open>createUniqueFileName\<close> returned \<open>undefined\<close>) \<open>getTempFilePath\<close> logs
  and returns \<open>undefined\<close>, on which \<open>fs.createWriteStream\<close> throws.
\<close>

definition diffImageFileName :: string where
  "diffImageFileName = ''difference_between_basaline_and_actual_screenshot.png''"

definition reportMismatch ::
  "path \<Rightarrow> int \<Rightarrow> testInfo \<Rightarrow> path \<Rightarrow> path \<Rightarrow> raster \<Rightarrow> world \<Rightarrow> (js_error + unit) \<times> world" where
  "reportMismatch tmpDir now ti baselinePath actualScreenshotPath mismatchedPixelsDiff w =
     (case createUniqueFileName ti now diffImageFileName w of
        (None, w1) \<Rightarrow>
          (Inl (TypeError ''The path argument must be of type string. Received undefined''),
           console_error (''Error while getting the path to the temporaty file: '' @
             ''The path argument must be of type string. Received undefined'') w1)
      | (Some diffImageName, w1) \<Rightarrow>
          (case writeDataToFile tmpDir mismatchedPixelsDiff diffImageName w1 of
             (diffImagePath, w2) \<Rightarrow>
               (case awaited (attachImage ti baselinePath) w2 of
                  (Inl e, w3) \<Rightarrow> (Inl e, w3)
                | (Inr _, w3) \<Rightarrow>
                    (case awaited (attachImage ti actualScreenshotPath) w3 of
                       (Inl e, w4) \<Rightarrow> (Inl e, w4)
                     | (Inr _, w4) \<Rightarrow>
                         (case awaited (attachImage ti diffImagePath) w4 of
                            (Inl e, w5) \<Rightarrow> (Inl e, w5)
                          | (Inr _, w5) \<Rightarrow> (Inr (), deleteTempFile diffImagePath w5))))))"

text \<open>
  \<open>getMismatchedPixelsCount(actualScreenshotPath, testInfo, sharedContext)\<close>, as its
  promise resolves: with the count, or with \<open>undefined\<close> (\<open>None\<close>) when the
  \<open>catch\<close> has logged an exception. When the process was terminated on the way
  (the world returned has an uncaught exception) nothing is caught or logged and the
  promise does not settle; the first component is \<open>None\<close> then too. The other
  \<open>await\<close> of the function, on the buffer of sharp, comes after all its reads and
  before it starts a stream; the function is modelled from a world in which no stream of
  an earlier call is pending.
\<close>

definition comparison_failed :: "js_error \<Rightarrow> string" where
  "comparison_failed error =
     ''Error while comparing actual screenshot against a baseline screenshot: '' @ message error"

definition getMismatchedPixelsCount ::
  "libs \<Rightarrow> path \<Rightarrow> int \<Rightarrow> path \<Rightarrow> testInfo \<Rightarrow> sharedContext \<Rightarrow> world \<Rightarrow> nat option \<times> world" where
  "getMismatchedPixelsCount L tmpDir now actualScreenshotPath ti ctx w =
     (case comparePixels L actualScreenshotPath ti ctx w of
        Inl error \<Rightarrow> (None, console_error (comparison_failed error) w)
      | Inr (baselinePath, mismatchedPixelsCount, mismatchedPixelsDiff) \<Rightarrow>
          (case (if mismatchedPixelsCount > 0
                 then reportMismatch tmpDir now ti baselinePath actualScreenshotPath
                        mismatchedPixelsDiff w
                 else (Inr (), w)) of
             (Inl error, w1) \<Rightarrow>
               (None, if uncaught w1 = [] then console_error (comparison_failed error) w1 else w1)
           | (Inr _, w1) \<Rightarrow> (Some mismatchedPixelsCount, deleteTempFile actualScreenshotPath w1)))"

subsection \<open>Inputs for the worked examples\<close>

definition empty_world :: world where
  "empty_world =
     \<lparr>files = (\<lambda>p. None), console = [], events = [],
      pending = [], stream_latency = 0, uncaught = []\<rparr>"

definition chromium_test :: testInfo where
  "chromium_test = \<lparr>project = Some \<lparr>name = ''chromium'', defaultBrowserType = Some ''chromium''\<rparr>\<rparr>"

definition jpeg_response :: response where
  "jpeg_response = \<lparr>statusCode = 200, contentType = Some ''image/jpeg'',
                     body = Completed (Raw [255, 216, 255])\<rparr>"


definition not_found_response :: response where
  "not_found_response = \<lparr>statusCode = 404, contentType = Some ''text/html'',
                          body = Completed (Raw [])\<rparr>"

definition red_pixel :: raster where
  "red_pixel = \<lparr>width = 1, height = 1, data = [255, 0, 0, 255]\<rparr>"

definition tmp_dir_world :: world where
  "tmp_dir_world =
     \<lparr>files = (\<lambda>p. if p = ''/tmp'' then Some Dir else None), console = [], events = [],
      pending = [], stream_latency = 0, uncaught = []\<rparr>"

definition blue_pixel :: raster where
  "blue_pixel = \<lparr>width = 1, height = 1, data = [0, 0, 255, 255]\<rparr>"

definition two_red_pixels :: raster where
  "two_red_pixels = \<lparr>width = 2, height = 1, data = [255, 0, 0, 255, 255, 0, 0, 255]\<rparr>"

definition example_libs :: libs where
  "example_libs =
     \<lparr>exceeds = (\<lambda>a b. a \<noteq> b), dimmed = (\<lambda>a. a), resample = (\<lambda>r w h i. (255, 0, 0, 255))\<rparr>"

definition desktop :: sharedContext where
  "desktop = \<lparr>isMobile = None\<rparr>"

text \<open>
  A world with the default baseline, one red pixel, and a screenshot at
  \<open>/tmp/shot.png\<close> with the given content.
\<close>

definition shot_world :: "content \<Rightarrow> world" where
  "shot_world c =
     \<lparr>files = (\<lambda>p. if p = ''./tests/test-data/baseline-images/baseline_homepage_logo.png''
                       then Some (File (Png red_pixel))
                     else if p = ''/tmp/shot.png'' then Some (File c) else None),
      console = [], events = [], pending = [], stream_latency = 0, uncaught = []\<rparr>"

text \<open>The same world on a slow disk: a started stream opens its file in the fourth turn.\<close>

definition slow_shot_world :: "content \<Rightarrow> world" where
  "slow_shot_world c = (shot_world c)\<lparr>stream_latency := 3\<rparr>"

text \<open>Two projects whose names differ and that \<open>path.join\<close> brings together.\<close>

definition dotted_test :: testInfo where
  "dotted_test = \<lparr>project = Some \<lparr>name = ''a/../x'', defaultBrowserType = Some ''chromium''\<rparr>\<rparr>"

definition x_test :: testInfo where
  "x_test = \<lparr>project = Some \<lparr>name = ''x'', defaultBrowserType = Some ''chromium''\<rparr>\<rparr>"

section \<open>Properties\<close>

subsection \<open>Decimal numerals\<close>

lemma digit_char_inj:
  assumes "a < 10" and "b < 10" and "digit_char a = digit_char b"
  shows "a = b"
proof -
  have "distinct ''0123456789''" by simp
  moreover have "a < length ''0123456789''" and "b < length ''0123456789''"
    using assms(1,2) by simp_all
  ultimately show ?thesis
    using assms(3) unfolding digit_char_def by (simp only: nth_eq_iff_index_eq)
qed

lemma digit_char_in: "d < 10 \<Longrightarrow> digit_char d \<in> set ''0123456789''"
  unfolding digit_char_def by (rule nth_mem) simp

lemma digits_nonempty: "digits n \<noteq> []"
  by (subst digits.simps) simp

lemma digits_chars: "c \<in> set (digits n) \<Longrightarrow> c \<in> set ''0123456789''"
proof (induction n rule: digits.induct)
  case (1 n)
  show ?case
  proof (cases "n < 10")
    case True
    with "1.prems" have "c = digit_char n"
      by (subst (asm) digits.simps) simp
    with True show ?thesis by (simp only: digit_char_in)
  next
    case False
    with "1.prems" have "c \<in> set (digits (n div 10)) \<or> c = digit_char (n mod 10)"
      by (subst (asm) digits.simps) auto
    then show ?thesis
    proof
      assume "c \<in> set (digits (n div 10))"
      with False "1.IH" show ?thesis by simp
    next
      have "n mod 10 < 10" by simp
      moreover assume "c = digit_char (n mod 10)"
      ultimately show ?thesis by (simp only: digit_char_in)
    qed
  qed
qed

lemma digits_inj: "digits n = digits m \<Longrightarrow> n = m"
proof (induction n arbitrary: m rule: digits.induct)
  case (1 n)
  show ?case
  proof (cases "n < 10")
    case n: True
    show ?thesis
    proof (cases "m < 10")
      case True
      from n True "1.prems" have "digit_char n = digit_char m"
        by (simp add: digits.simps [of n] digits.simps [of m])
      with n True show ?thesis by (rule digit_char_inj)
    next
      case False
      with n "1.prems" digits_nonempty [of "m div 10"] show ?thesis
        by (simp add: digits.simps [of n] digits.simps [of m])
    qed
  next
    case n: False
    show ?thesis
    proof (cases "m < 10")
      case True
      with n "1.prems" digits_nonempty [of "n div 10"] show ?thesis
        by (simp add: digits.simps [of n] digits.simps [of m])
    next
      case False
      with n "1.prems" have a: "digits (n div 10) = digits (m div 10)"
        and b: "digit_char (n mod 10) = digit_char (m mod 10)"
        by (simp_all add: digits.simps [of n] digits.simps [of m])
      from "1.IH" [OF n a] have "n div 10 = m div 10" .
      moreover have "n mod 10 = m mod 10"
        by (rule digit_char_inj [OF _ _ b]) simp_all
      ultimately show ?thesis by (metis div_mult_mod_eq)
    qed
  qed
qed

lemma number_toString_chars:
  assumes "c \<in> set (number_toString i)"
  shows "c \<in> set ''-0123456789''"
proof -
  from assms have "c = CHR ''-'' \<or> c \<in> set (digits (nat (- i))) \<or> c \<in> set (digits (nat i))"
    by (auto simp: number_toString_def split: if_splits)
  then have "c = CHR ''-'' \<or> c \<in> set ''0123456789''"
    using digits_chars by blast
  moreover have "set ''-0123456789'' = insert CHR ''-'' (set ''0123456789'')"
    by (simp only: list.set)
  ultimately show ?thesis by blast
qed

lemma number_toString_inj: "number_toString a = number_toString b \<Longrightarrow> a = b"
proof -
  assume eq: "number_toString a = number_toString b"
  have hd: "hd (digits k) \<noteq> CHR ''-''" for k
  proof -
    have "hd (digits k) \<in> set (digits k)" using digits_nonempty by simp
    then have "hd (digits k) \<in> set ''0123456789''" by (rule digits_chars)
    then show ?thesis by auto
  qed
  show ?thesis
  proof (cases "a < 0")
    case a: True
    show ?thesis
    proof (cases "b < 0")
      case True
      with a eq have "digits (nat (- a)) = digits (nat (- b))" by (simp add: number_toString_def)
      then have "nat (- a) = nat (- b)" by (rule digits_inj)
      with a True show ?thesis by simp
    next
      case False
      with a eq have "CHR ''-'' # digits (nat (- a)) = digits (nat b)"
        by (simp add: number_toString_def)
      then have "hd (digits (nat b)) = CHR ''-''" by (metis list.sel(1))
      with hd show ?thesis by blast
    qed
  next
    case a: False
    show ?thesis
    proof (cases "b < 0")
      case True
      with a eq have "CHR ''-'' # digits (nat (- b)) = digits (nat a)"
        by (simp add: number_toString_def)
      then have "hd (digits (nat a)) = CHR ''-''" by (metis list.sel(1))
      with hd show ?thesis by blast
    next
      case False
      with a eq have "digits (nat a) = digits (nat b)" by (simp add: number_toString_def)
      then have "nat a = nat b" by (rule digits_inj)
      with a False show ?thesis by simp
    qed
  qed
qed

lemmas number_toString_eval = number_toString_def digits.simps digit_char_def

subsection \<open>Paths\<close>

lemma split_on_nonempty: "split_on c xs \<noteq> []"
  by (induction xs) (auto split: list.splits)

lemma split_on_no_sep: "c \<notin> set ys \<Longrightarrow> split_on c ys = [ys]"
  by (induction ys) auto

lemma split_on_append: 
  "c \<notin> set ys \<Longrightarrow> split_on c (xs @ ys) = butlast (split_on c xs) @ [last (split_on c xs) @ ys]"
proof (induction xs)
  case Nil
  then show ?case by (simp add: split_on_no_sep)
next
  case (Cons x xs)
  obtain s ss where s: "split_on c xs = s # ss"
    using split_on_nonempty [of c xs] by (cases "split_on c xs") auto
  from Cons s show ?case
    by (cases ss) (auto simp: split_on_nonempty)
qed

lemma join_with_snoc:
  "join_with sep (ss @ [l]) = (if ss = [] then l else join_with sep ss @ sep @ l)"
  by (induction sep ss rule: join_with.induct) auto

lemma getTempFilePath_stem:
  assumes sep: "CHR ''/'' \<notin> set sfx" and len: "2 < length sfx"
  shows "getTempFilePath tmpDir (p @ sfx) = temp_stem tmpDir p @ sfx"
proof -
  define pre where "pre = (if tmpDir = [] then p else tmpDir @ ''/'' @ p)"
  define isAbs where "isAbs = (pre \<noteq> [] \<and> hd pre = CHR ''/'')"
  define st where "st = foldl (normalize_step (\<not> isAbs)) [] (butlast (split_on CHR ''/'' pre))"
  define l where "l = last (split_on CHR ''/'' pre) @ sfx"
  from len have sfx: "sfx \<noteq> []" by auto
  have joined: "join_with ''/'' (filter (\<lambda>a. a \<noteq> []) [tmpDir, p @ sfx]) = pre @ sfx"
    using sfx by (simp add: pre_def)
  have ne: "pre @ sfx \<noteq> []" using sfx by simp
  have hd_sfx: "hd sfx \<noteq> CHR ''/''" using sep sfx by (cases sfx) auto
  have abs: "(hd (pre @ sfx) = CHR ''/'') = isAbs"
    using hd_sfx by (cases pre) (auto simp: isAbs_def)
  have last_sfx: "last (pre @ sfx) \<noteq> CHR ''/''"
    using sep sfx last_in_set [of sfx] by (auto simp del: last_in_set)
  have segs: "split_on CHR ''/'' (pre @ sfx) = butlast (split_on CHR ''/'' pre) @ [l]"
    using sep by (simp add: split_on_append l_def)
  have l_len: "2 < length l" using len by (simp add: l_def)
  then have l_ok: "l \<noteq> [] \<and> l \<noteq> ''.'' \<and> l \<noteq> ''..''" by auto
  have fold: "foldl (normalize_step (\<not> isAbs)) [] (split_on CHR ''/'' (pre @ sfx)) = l # st"
    using l_ok by (simp add: segs st_def)
  have body: "join_with ''/'' (rev (l # st)) = (if st = [] then [] else join_with ''/'' (rev st) @ ''/'') @ l"
    by (simp add: join_with_snoc)
  have body_ne: "join_with ''/'' (rev (l # st)) \<noteq> []"
    using l_ok unfolding body by simp
  have "posix_normalize (pre @ sfx) =
          (if isAbs then ''/'' else []) @ (if st = [] then [] else join_with ''/'' (rev st) @ ''/'') @ l"
    unfolding posix_normalize_def Let_def
    using ne last_sfx body_ne unfolding abs fold by (simp only: body if_False) simp
  moreover have "getTempFilePath tmpDir (p @ sfx) = posix_normalize (pre @ sfx)"
    unfolding getTempFilePath_def path_join_def joined Let_def using sfx by auto
  moreover have "temp_stem tmpDir p @ sfx =
          (if isAbs then ''/'' else []) @ (if st = [] then [] else join_with ''/'' (rev st) @ ''/'') @ l"
    unfolding temp_stem_def Let_def pre_def [symmetric] isAbs_def [symmetric] st_def [symmetric] l_def
    by simp
  ultimately show ?thesis by simp
qed

subsection \<open>Names of temp files\<close>

text \<open>
  C9: the name \<open>createUniqueFileName\<close> returns is the project's name, the
  timestamp in decimal and the caller's file name, joined by underscores; for a fixed
  \<open>testInfo\<close> and file name, two calls that observe different timestamps return
  different names.
\<close>

theorem createUniqueFileName_distinct_timestamps:
  assumes "project ti = Some p" and "t1 \<noteq> t2"
  shows "fst (createUniqueFileName ti t1 filename w) =
           Some (name p @ ''_'' @ number_toString t1 @ ''_'' @ filename) \<and>
         fst (createUniqueFileName ti t1 filename w) \<noteq>
           fst (createUniqueFileName ti t2 filename w')"
proof -
  from assms(2) have "number_toString t1 \<noteq> number_toString t2"
    using number_toString_inj by blast
  with assms(1) show ?thesis by (simp add: createUniqueFileName_def)
qed

theorem createUniqueFileName_distinct_timestamps_witness:
  "fst (createUniqueFileName chromium_test 1730000000000 ''logo.png'' empty_world) =
     Some ''chromium_1730000000000_logo.png'' \<and>
   fst (createUniqueFileName chromium_test 1730000000000 ''logo.png'' empty_world) \<noteq>
     fst (createUniqueFileName chromium_test 1730000000001 ''logo.png'' empty_world)"
proof -
  have p: "project chromium_test =
             Some \<lparr>name = ''chromium'', defaultBrowserType = Some ''chromium''\<rparr>"
    by (simp add: chromium_test_def)
  have t: "(1730000000000 :: int) \<noteq> 1730000000001" by simp
  have n: "number_toString 1730000000000 = ''1730000000000''"
    by (simp add: number_toString_eval)
  note th = createUniqueFileName_distinct_timestamps
              [OF p t, of "''logo.png''" empty_world empty_world]
  from th have "fst (createUniqueFileName chromium_test 1730000000000 ''logo.png'' empty_world) =
                  Some ''chromium_1730000000000_logo.png''"
    by (simp add: n)
  moreover from th
  have "fst (createUniqueFileName chromium_test 1730000000000 ''logo.png'' empty_world) \<noteq>
        fst (createUniqueFileName chromium_test 1730000000001 ''logo.png'' empty_world)"
    by (rule conjunct2)
  ultimately show ?thesis by (rule conjI)
qed

subsection \<open>The file system\<close>

lemma files_console_error [simp]: "files (console_error m w) = files w"
  by (simp add: console_error_def)

lemma events_console_error [simp]: "events (console_error m w) = events w"
  by (simp add: console_error_def)

lemma fs_unlink_files:
  "fs_unlink p w = Inr w' \<Longrightarrow> files w' = (files w)(p := None)"
  by (auto simp: fs_unlink_def split: option.splits node.splits)

lemma fs_unlink_fails:
  "fs_unlink p w = Inl e \<Longrightarrow> files w p = None \<or> files w p = Some Dir"
  by (auto simp: fs_unlink_def split: option.splits node.splits)

lemma cleanupAndReject_no_file:
  "files (snd (cleanupAndReject p e w)) p \<noteq> Some (File c)"
  by (cases "fs_unlink p w")
     (auto simp: cleanupAndReject_def Let_def dest: fs_unlink_files fs_unlink_fails)

lemma cleanupAndReject_rejects: "fst (cleanupAndReject p e w) = Rejected e"
  by (simp add: cleanupAndReject_def Let_def)

lemma fs_write_files:
  "fs_write p c w = Inr w' \<Longrightarrow> files w' = (files w)(p \<mapsto> File c)"
  by (auto simp: fs_write_def split: option.splits node.splits)

lemma streamToTempFile_outcome:
  "(case fst (streamToTempFile p t w) of
      Resolved q \<Rightarrow> q = p \<and> (\<exists>c. t = Completed c \<and> files (snd (streamToTempFile p t w)) p = Some (File c))
    | Rejected e \<Rightarrow> (\<forall>c. files (snd (streamToTempFile p t w)) p \<noteq> Some (File c)))"
proof (cases t)
  case (Completed c)
  then show ?thesis
    by (cases "fs_write p c w")
       (auto simp: streamToTempFile_def cleanupAndReject_rejects cleanupAndReject_no_file
             dest: fs_write_files)
next
  case (Broken partial err)
  then show ?thesis
    by (cases "fs_write p (Raw partial) w")
       (auto simp: streamToTempFile_def cleanupAndReject_rejects cleanupAndReject_no_file)
qed


subsection \<open>Remote image fetcher\<close>

lemma streamToTempFile_not_DownloadFailed:
  "fst (streamToTempFile p t w) \<noteq> Rejected (DownloadFailed u s)"
proof (cases t)
  case (Completed c)
  then show ?thesis
    by (cases "fs_write p c w")
       (auto simp: streamToTempFile_def cleanupAndReject_def fs_write_def Let_def
             split: option.splits node.splits)
next
  case (Broken partial err)
  then show ?thesis
    by (cases "fs_write p (Raw partial) w"; cases err)
       (auto simp: streamToTempFile_def cleanupAndReject_def fs_write_def Let_def
             split: option.splits node.splits)
qed

lemma tmp_test_picture: "getTempFilePath ''/tmp'' ''test_picture.jpg'' = ''/tmp/test_picture.jpg''"
  by (simp add: getTempFilePath_def path_join_def posix_normalize_def)

text \<open>
  C5: given a response, the download is rejected with the error that carries the status
  code exactly when the status code is outside 200..299 or the content type does not
  start with \<open>image/\<close>; then nothing is written. Otherwise it goes on to stream the
  body into the temp file.
\<close>

theorem download_validation:
  "(fst (downloadImageFromUrlToTempDir tmpDir url (Response r) w) =
      Rejected (DownloadFailed url (statusCode r))) =
   (statusCode r < 200 \<or> 300 \<le> statusCode r \<or> \<not> image_content_type (contentType r)) \<and>
   (if statusCode r < 200 \<or> 300 \<le> statusCode r \<or> \<not> image_content_type (contentType r)
    then downloadImageFromUrlToTempDir tmpDir url (Response r) w =
           (Rejected (DownloadFailed url (statusCode r)), w)
    else downloadImageFromUrlToTempDir tmpDir url (Response r) w =
           streamToTempFile (getTempFilePath tmpDir ''test_picture.jpg'') (body r) w)"
  using streamToTempFile_not_DownloadFailed
  by (simp add: downloadImageFromUrlToTempDir_def)

theorem download_validation_witness:
  "fst (downloadImageFromUrlToTempDir ''/tmp'' ''https://example.com/logo'' (Response not_found_response)
          empty_world) = Rejected (DownloadFailed ''https://example.com/logo'' 404) \<and>
   downloadImageFromUrlToTempDir ''/tmp'' ''https://example.com/logo'' (Response jpeg_response)
     empty_world =
   streamToTempFile ''/tmp/test_picture.jpg'' (Completed (Raw [255, 216, 255])) empty_world"
proof -
  have "fst (downloadImageFromUrlToTempDir ''/tmp'' ''https://example.com/logo''
               (Response not_found_response) empty_world) =
          Rejected (DownloadFailed ''https://example.com/logo'' 404)"
    using download_validation
            [of "''/tmp''" "''https://example.com/logo''" not_found_response empty_world]
    by (simp add: not_found_response_def)
  moreover
  have "downloadImageFromUrlToTempDir ''/tmp'' ''https://example.com/logo''
          (Response jpeg_response) empty_world =
        streamToTempFile ''/tmp/test_picture.jpg'' (Completed (Raw [255, 216, 255])) empty_world"
    using download_validation
            [of "''/tmp''" "''https://example.com/logo''" jpeg_response empty_world]
    by (simp add: jpeg_response_def image_content_type_def tmp_test_picture)
  ultimately show ?thesis by (rule conjI)
qed



subsection \<open>Paths of temp files\<close>

lemma diffImageFileName_no_sep: "CHR ''/'' \<notin> set diffImageFileName"
  by (simp add: diffImageFileName_def)

lemma download_path:
  "fst (downloadImageFromUrlToTempDir tmpDir url got w) = Resolved p \<Longrightarrow>
   p = getTempFilePath tmpDir ''test_picture.jpg''"
proof (cases got)
  case (RequestError m)
  assume "fst (downloadImageFromUrlToTempDir tmpDir url got w) = Resolved p"
  with RequestError show ?thesis by (simp add: downloadImageFromUrlToTempDir_def)
next
  case (Response r)
  assume a: "fst (downloadImageFromUrlToTempDir tmpDir url got w) = Resolved p"
  with Response have
    "fst (streamToTempFile (getTempFilePath tmpDir ''test_picture.jpg'') (body r) w) = Resolved p"
    by (simp add: downloadImageFromUrlToTempDir_def split: if_splits)
  with streamToTempFile_outcome [of "getTempFilePath tmpDir ''test_picture.jpg''" "body r" w]
  show ?thesis by simp
qed

lemma first_separator_unique:
  "c \<notin> set u \<Longrightarrow> c \<notin> set v \<Longrightarrow> u @ c # x = v @ c # y \<Longrightarrow> u = v \<and> x = y"
proof (induction u arbitrary: v)
  case Nil
  then show ?case by (cases v) auto
next
  case (Cons h u)
  then show ?case by (cases v) auto
qed

lemma last_separator_unique:
  assumes eq: "xs @ c # a = ys @ c # b" and a: "c \<notin> set a" and b: "c \<notin> set b"
  shows "xs = ys \<and> a = b"
proof -
  from eq have "rev (xs @ c # a) = rev (ys @ c # b)" by (rule arg_cong)
  then have "rev a @ c # rev xs = rev b @ c # rev ys" by simp
  moreover from a b have "c \<notin> set (rev a)" and "c \<notin> set (rev b)" by simp_all
  ultimately have "rev a = rev b \<and> rev xs = rev ys"
    using first_separator_unique [of c "rev a" "rev b" "rev xs" "rev ys"] by blast
  then show ?thesis by simp
qed

lemma number_toString_no_sep:
  "CHR ''/'' \<notin> set (number_toString t)" "CHR ''_'' \<notin> set (number_toString t)"
  using number_toString_chars [of "CHR ''/''" t] number_toString_chars [of "CHR ''_''" t]
  by auto

lemma createUniqueFileName_Some:
  "fst (createUniqueFileName ti t f w) = Some n \<Longrightarrow>
   \<exists>p. project ti = Some p \<and> n = name p @ ''_'' @ number_toString t @ ''_'' @ f"
  by (cases "project ti") (auto simp: createUniqueFileName_def)

lemma diff_path_distinct_timestamps:
  assumes t: "t1 \<noteq> t2"
  shows "getTempFilePath tmpDir (P @ ''_'' @ number_toString t1 @ ''_'' @ diffImageFileName) \<noteq>
         getTempFilePath tmpDir (P @ ''_'' @ number_toString t2 @ ''_'' @ diffImageFileName)"
proof
  define sfx where "sfx t = ''_'' @ number_toString t @ ''_'' @ diffImageFileName" for t
  assume "getTempFilePath tmpDir (P @ ''_'' @ number_toString t1 @ ''_'' @ diffImageFileName) =
          getTempFilePath tmpDir (P @ ''_'' @ number_toString t2 @ ''_'' @ diffImageFileName)"
  then have eq: "getTempFilePath tmpDir (P @ sfx t1) = getTempFilePath tmpDir (P @ sfx t2)"
    by (simp add: sfx_def)
  have sep: "CHR ''/'' \<notin> set (sfx t)" for t
    by (simp add: sfx_def diffImageFileName_no_sep number_toString_no_sep)
  have len: "2 < length (sfx t)" for t
    by (simp add: sfx_def diffImageFileName_def)
  from eq have "temp_stem tmpDir P @ sfx t1 = temp_stem tmpDir P @ sfx t2"
    by (simp only: getTempFilePath_stem [OF sep len])
  then have "sfx t1 = sfx t2" by simp
  then have "number_toString t1 = number_toString t2" by (simp add: sfx_def)
  then have "t1 = t2" by (rule number_toString_inj)
  with t show False by contradiction
qed

lemma diff_path_distinct_names:
  assumes p1: "CHR ''/'' \<notin> set P1" and p2: "CHR ''/'' \<notin> set P2"
    and ne: "P1 \<noteq> P2 \<or> t1 \<noteq> t2"
  shows "getTempFilePath tmpDir (P1 @ ''_'' @ number_toString t1 @ ''_'' @ diffImageFileName) \<noteq>
         getTempFilePath tmpDir (P2 @ ''_'' @ number_toString t2 @ ''_'' @ diffImageFileName)"
proof
  define nm where "nm P t = P @ ''_'' @ number_toString t @ ''_'' @ diffImageFileName" for P t
  assume "getTempFilePath tmpDir (P1 @ ''_'' @ number_toString t1 @ ''_'' @ diffImageFileName) =
          getTempFilePath tmpDir (P2 @ ''_'' @ number_toString t2 @ ''_'' @ diffImageFileName)"
  then have eq: "getTempFilePath tmpDir ([] @ nm P1 t1) = getTempFilePath tmpDir ([] @ nm P2 t2)"
    by (simp add: nm_def)
  have sep: "CHR ''/'' \<notin> set P \<Longrightarrow> CHR ''/'' \<notin> set (nm P t)" for P t
    by (simp add: nm_def diffImageFileName_no_sep number_toString_no_sep)
  have len: "2 < length (nm P t)" for P t
    by (simp add: nm_def diffImageFileName_def)
  from eq have "temp_stem tmpDir [] @ nm P1 t1 = temp_stem tmpDir [] @ nm P2 t2"
    by (simp only: getTempFilePath_stem [OF sep [OF p1] len] getTempFilePath_stem [OF sep [OF p2] len])
  then have "nm P1 t1 = nm P2 t2" by simp
  then have "P1 @ CHR ''_'' # number_toString t1 = P2 @ CHR ''_'' # number_toString t2"
    by (simp add: nm_def)
  then have "P1 = P2 \<and> number_toString t1 = number_toString t2"
    by (rule last_separator_unique) (rule number_toString_no_sep(2))+
  then have "P1 = P2 \<and> t1 = t2" using number_toString_inj by blast
  with ne show False by blast
qed


text \<open>
  C3, as the code has it. A download that resolves, whatever the url, the test and the
  time, resolves with the one path of \<open>test_picture.jpg\<close> in the temp directory. The
  diff writer's path is \<open>path.join\<close> of the temp directory and the name
  \<open>projectName_timestamp_difference_between_basaline_and_actual_screenshot.png\<close>. Two
  such paths differ when the project names are the same and the timestamps differ, and,
  for project names without a separator, whenever the project names or the timestamps
  differ.
\<close>

theorem temp_file_paths:
  "(fst (downloadImageFromUrlToTempDir tmpDir url got w) = Resolved p \<longrightarrow>
      p = getTempFilePath tmpDir ''test_picture.jpg'') \<and>
   (fst (createUniqueFileName ti t diffImageFileName w0) = Some n \<longrightarrow>
      (\<exists>pr. project ti = Some pr \<and>
            n = name pr @ ''_'' @ number_toString t @ ''_'' @ diffImageFileName) \<and>
      fst (writeDataToFile tmpDir d n w') = path_join [tmpDir, n]) \<and>
   (project ti1 = Some p1 \<and> project ti2 = Some p2 \<and>
    fst (createUniqueFileName ti1 t1 diffImageFileName w1) = Some n1 \<and>
    fst (createUniqueFileName ti2 t2 diffImageFileName w2) = Some n2 \<and>
    (name p1 = name p2 \<or> CHR ''/'' \<notin> set (name p1) \<and> CHR ''/'' \<notin> set (name p2)) \<and>
    (name p1 \<noteq> name p2 \<or> t1 \<noteq> t2) \<longrightarrow>
      fst (writeDataToFile tmpDir d1 n1 w3) \<noteq> fst (writeDataToFile tmpDir d2 n2 w4))"
proof (intro conjI impI)
  assume "fst (downloadImageFromUrlToTempDir tmpDir url got w) = Resolved p"
  then show "p = getTempFilePath tmpDir ''test_picture.jpg''" by (rule download_path)
next
  assume "fst (createUniqueFileName ti t diffImageFileName w0) = Some n"
  then show "\<exists>pr. project ti = Some pr \<and>
               n = name pr @ ''_'' @ number_toString t @ ''_'' @ diffImageFileName"
    by (rule createUniqueFileName_Some)
next
  show "fst (writeDataToFile tmpDir d n w') = path_join [tmpDir, n]"
    by (simp add: writeDataToFile_def getTempFilePath_def Let_def)
next
  assume a: "project ti1 = Some p1 \<and> project ti2 = Some p2 \<and>
    fst (createUniqueFileName ti1 t1 diffImageFileName w1) = Some n1 \<and>
    fst (createUniqueFileName ti2 t2 diffImageFileName w2) = Some n2 \<and>
    (name p1 = name p2 \<or> CHR ''/'' \<notin> set (name p1) \<and> CHR ''/'' \<notin> set (name p2)) \<and>
    (name p1 \<noteq> name p2 \<or> t1 \<noteq> t2)"
  then have n1: "n1 = name p1 @ ''_'' @ number_toString t1 @ ''_'' @ diffImageFileName"
    and n2: "n2 = name p2 @ ''_'' @ number_toString t2 @ ''_'' @ diffImageFileName"
    by (auto simp: createUniqueFileName_def)
  have "getTempFilePath tmpDir n1 \<noteq> getTempFilePath tmpDir n2"
  proof (cases "name p1 = name p2")
    case True
    with a have "t1 \<noteq> t2" by blast
    then show ?thesis unfolding n1 n2 True by (rule diff_path_distinct_timestamps)
  next
    case False
    with a have "CHR ''/'' \<notin> set (name p1)" and "CHR ''/'' \<notin> set (name p2)" by blast+
    moreover from False have "name p1 \<noteq> name p2 \<or> t1 \<noteq> t2" by simp
    ultimately show ?thesis unfolding n1 n2 by (rule diff_path_distinct_names)
  qed
  then show "fst (writeDataToFile tmpDir d1 n1 w3) \<noteq> fst (writeDataToFile tmpDir d2 n2 w4)"
    by (simp add: writeDataToFile_def Let_def)
qed

lemma download_jpeg:
  "fst (downloadImageFromUrlToTempDir ''/tmp'' url (Response jpeg_response) empty_world) =
     Resolved ''/tmp/test_picture.jpg''"
  by (simp add: downloadImageFromUrlToTempDir_def jpeg_response_def image_content_type_def
        tmp_test_picture streamToTempFile_def fs_write_def empty_world_def)

lemma chromium_diff_name:
  "fst (createUniqueFileName chromium_test 1730000000000 diffImageFileName w) =
     Some ''chromium_1730000000000_difference_between_basaline_and_actual_screenshot.png''"
  "fst (createUniqueFileName chromium_test 1730000000001 diffImageFileName w) =
     Some ''chromium_1730000000001_difference_between_basaline_and_actual_screenshot.png''"
  by (simp_all add: createUniqueFileName_def chromium_test_def diffImageFileName_def
        number_toString_eval)

lemma x_diff_name:
  "fst (createUniqueFileName x_test 1730000000000 diffImageFileName w) =
     Some ''x_1730000000000_difference_between_basaline_and_actual_screenshot.png''"
  "fst (createUniqueFileName dotted_test 1730000000000 diffImageFileName w) =
     Some ''a/../x_1730000000000_difference_between_basaline_and_actual_screenshot.png''"
  by (simp_all add: createUniqueFileName_def x_test_def dotted_test_def diffImageFileName_def
        number_toString_eval)

theorem temp_file_paths_witness:
  "fst (downloadImageFromUrlToTempDir ''/tmp'' ''https://example.com/a.png''
          (Response jpeg_response) empty_world) = Resolved ''/tmp/test_picture.jpg'' \<and>
   ''/tmp/test_picture.jpg'' = getTempFilePath ''/tmp'' ''test_picture.jpg'' \<and>
   fst (writeDataToFile ''/tmp'' red_pixel
          ''chromium_1730000000000_difference_between_basaline_and_actual_screenshot.png''
          empty_world) =
     ''/tmp/chromium_1730000000000_difference_between_basaline_and_actual_screenshot.png'' \<and>
   fst (writeDataToFile ''/tmp'' red_pixel
          ''chromium_1730000000000_difference_between_basaline_and_actual_screenshot.png''
          empty_world) \<noteq>
   fst (writeDataToFile ''/tmp'' red_pixel
          ''chromium_1730000000001_difference_between_basaline_and_actual_screenshot.png''
          empty_world) \<and>
   fst (writeDataToFile ''/tmp'' red_pixel
          ''chromium_1730000000000_difference_between_basaline_and_actual_screenshot.png''
          empty_world) \<noteq>
   fst (writeDataToFile ''/tmp'' red_pixel
          ''x_1730000000000_difference_between_basaline_and_actual_screenshot.png''
          empty_world)"
proof -
  let ?c0 = "''chromium_1730000000000_difference_between_basaline_and_actual_screenshot.png''"
  let ?c1 = "''chromium_1730000000001_difference_between_basaline_and_actual_screenshot.png''"
  let ?x0 = "''x_1730000000000_difference_between_basaline_and_actual_screenshot.png''"
  let ?pc = "\<lparr>name = ''chromium'', defaultBrowserType = Some ''chromium''\<rparr>"
  let ?px = "\<lparr>name = ''x'', defaultBrowserType = Some ''chromium''\<rparr>"
  have pc: "project chromium_test = Some ?pc" by (simp add: chromium_test_def)
  have px: "project x_test = Some ?px" by (simp add: x_test_def)
  have d: "fst (downloadImageFromUrlToTempDir ''/tmp'' ''https://example.com/a.png''
                  (Response jpeg_response) empty_world) = Resolved ''/tmp/test_picture.jpg''"
    by (rule download_jpeg)
  have j: "path_join [''/tmp'', ?c0] =
             ''/tmp/chromium_1730000000000_difference_between_basaline_and_actual_screenshot.png''"
    by (simp add: path_join_def posix_normalize_def)
  note th1 = temp_file_paths
      [of "''/tmp''" "''https://example.com/a.png''" "Response jpeg_response" empty_world
          "''/tmp/test_picture.jpg''" chromium_test 1730000000000 empty_world ?c0
          red_pixel empty_world
          chromium_test ?pc chromium_test ?pc 1730000000000 empty_world ?c0
          1730000000001 empty_world ?c1 red_pixel empty_world red_pixel empty_world]
  note th2 = temp_file_paths
      [of "''/tmp''" "''https://example.com/a.png''" "Response jpeg_response" empty_world
          "''/tmp/test_picture.jpg''" chromium_test 1730000000000 empty_world ?c0
          red_pixel empty_world
          chromium_test ?pc x_test ?px 1730000000000 empty_world ?c0
          1730000000000 empty_world ?x0 red_pixel empty_world red_pixel empty_world]
  from th1 d have 1: "''/tmp/test_picture.jpg'' = getTempFilePath ''/tmp'' ''test_picture.jpg''"
    by blast
  from th1 chromium_diff_name(1) [of empty_world]
  have "fst (writeDataToFile ''/tmp'' red_pixel ?c0 empty_world) = path_join [''/tmp'', ?c0]"
    by blast
  then have 2: "fst (writeDataToFile ''/tmp'' red_pixel ?c0 empty_world) =
     ''/tmp/chromium_1730000000000_difference_between_basaline_and_actual_screenshot.png''"
    by (simp only: j)
  have "(1730000000000 :: int) \<noteq> 1730000000001" by simp
  with th1 pc chromium_diff_name [of empty_world]
  have 3: "fst (writeDataToFile ''/tmp'' red_pixel ?c0 empty_world) \<noteq>
           fst (writeDataToFile ''/tmp'' red_pixel ?c1 empty_world)"
    by blast
  have "name ?pc \<noteq> name ?px" "CHR ''/'' \<notin> set (name ?pc)" "CHR ''/'' \<notin> set (name ?px)"
    by simp_all
  with th2 pc px chromium_diff_name(1) [of empty_world] x_diff_name(1) [of empty_world]
  have 4: "fst (writeDataToFile ''/tmp'' red_pixel ?c0 empty_world) \<noteq>
           fst (writeDataToFile ''/tmp'' red_pixel ?x0 empty_world)"
    by blast
  from d 1 2 3 4 show ?thesis by blast
qed

text \<open>
  Two downloads of different urls, one after the other, resolve with the same path; and
  the diff writer gets the same path for the project names \<open>a/../x\<close> and \<open>x\<close> at
  one timestamp, since \<open>path.join\<close> normalises the name.
\<close>

theorem temp_paths_collide:
  "fst (downloadImageFromUrlToTempDir ''/tmp'' ''https://example.com/a.png''
          (Response jpeg_response) empty_world) = Resolved ''/tmp/test_picture.jpg'' \<and>
   fst (downloadImageFromUrlToTempDir ''/tmp'' ''https://example.com/b.png''
          (Response jpeg_response)
          (snd (downloadImageFromUrlToTempDir ''/tmp'' ''https://example.com/a.png''
                  (Response jpeg_response) empty_world))) = Resolved ''/tmp/test_picture.jpg'' \<and>
   fst (createUniqueFileName dotted_test 1730000000000 diffImageFileName empty_world) =
     Some ''a/../x_1730000000000_difference_between_basaline_and_actual_screenshot.png'' \<and>
   fst (createUniqueFileName x_test 1730000000000 diffImageFileName empty_world) =
     Some ''x_1730000000000_difference_between_basaline_and_actual_screenshot.png'' \<and>
   fst (writeDataToFile ''/tmp'' red_pixel
          ''a/../x_1730000000000_difference_between_basaline_and_actual_screenshot.png''
          empty_world) =
   fst (writeDataToFile ''/tmp'' red_pixel
          ''x_1730000000000_difference_between_basaline_and_actual_screenshot.png''
          empty_world)"
  by (simp add: downloadImageFromUrlToTempDir_def jpeg_response_def image_content_type_def
        tmp_test_picture streamToTempFile_def fs_write_def empty_world_def x_diff_name
        writeDataToFile_def getTempFilePath_def path_join_def posix_normalize_def Let_def)

subsection \<open>Reading and writing files\<close>

text \<open>
  C2, as the code has it: \<open>readFile\<close> and \<open>writeFile\<close> never reject. When the
  underlying operation fails they log the error's message and resolve with
  \<open>undefined\<close>; otherwise they resolve with the buffer, or after the write.
\<close>

theorem readFile_writeFile_resolve:
  "fst (readFile p w) \<noteq> Rejected x \<and> fst (writeFile p d w) \<noteq> Rejected y \<and>
   (fs_read p w = Inl e \<longrightarrow>
      readFile p w =
        (Resolved None, console_error (''Error while reading the file: '' @ message e) w)) \<and>
   (fs_read p w = Inr c \<longrightarrow> readFile p w = (Resolved (Some c), w)) \<and>
   (fs_write p d w = Inl e \<longrightarrow>
      writeFile p d w =
        (Resolved (), console_error (''Error while writing file: '' @ message e) w)) \<and>
   (fs_write p d w = Inr w' \<longrightarrow> writeFile p d w = (Resolved (), w'))"
  by (simp add: readFile_def writeFile_def split: sum.splits)

theorem readFile_writeFile_resolve_witness:
  "readFile ''/tmp/missing.png'' empty_world =
     (Resolved None,
      console_error (''Error while reading the file: '' @
        message (SysError ENOENT ''open'' ''/tmp/missing.png'')) empty_world) \<and>
   writeFile ''/tmp'' (Raw []) tmp_dir_world =
     (Resolved (),
      console_error (''Error while writing file: '' @
        message (SysError EISDIR ''open'' ''/tmp'')) tmp_dir_world)"
proof -
  have r: "fs_read ''/tmp/missing.png'' empty_world = Inl (SysError ENOENT ''open'' ''/tmp/missing.png'')"
    by (simp add: fs_read_def empty_world_def)
  have w: "fs_write ''/tmp'' (Raw []) tmp_dir_world = Inl (SysError EISDIR ''open'' ''/tmp'')"
    by (simp add: fs_write_def tmp_dir_world_def)
  from readFile_writeFile_resolve
         [of "''/tmp/missing.png''" empty_world _ "Raw []" _ "SysError ENOENT ''open'' ''/tmp/missing.png''"]
       r
  have "readFile ''/tmp/missing.png'' empty_world =
     (Resolved None,
      console_error (''Error while reading the file: '' @
        message (SysError ENOENT ''open'' ''/tmp/missing.png'')) empty_world)"
    by blast
  moreover
  from readFile_writeFile_resolve
         [of "''/tmp''" tmp_dir_world _ "Raw []" _ "SysError EISDIR ''open'' ''/tmp''"]
       w
  have "writeFile ''/tmp'' (Raw []) tmp_dir_world =
     (Resolved (),
      console_error (''Error while writing file: '' @
        message (SysError EISDIR ''open'' ''/tmp'')) tmp_dir_world)"
    by blast
  ultimately show ?thesis by (rule conjI)
qed

text \<open>
  A read of a missing file and a write onto a directory: the underlying operation fails,
  and the promise is resolved.
\<close>

theorem readFile_writeFile_swallow_errors:
  "fs_read ''/tmp/missing.png'' empty_world = Inl (SysError ENOENT ''open'' ''/tmp/missing.png'') \<and>
   fst (readFile ''/tmp/missing.png'' empty_world) = Resolved None \<and>
   fs_write ''/tmp'' (Raw []) tmp_dir_world = Inl (SysError EISDIR ''open'' ''/tmp'') \<and>
   fst (writeFile ''/tmp'' (Raw []) tmp_dir_world) = Resolved ()"
  by (simp add: readFile_def writeFile_def fs_read_def fs_write_def empty_world_def
        tmp_dir_world_def)

subsection \<open>Image libraries\<close>

lemma length_rgba_bytes: "length (rgba_bytes x) = 4"
  by (induct x rule: rgba_bytes.induct) simp

lemma length_concat_rgba: "length (concat (map (\<lambda>i. rgba_bytes (f i)) xs)) = 4 * length xs"
  by (induction xs) (simp_all add: length_rgba_bytes)

lemma PNG_sync_read_Inr:
  "PNG_sync_read c = Inr r \<Longrightarrow>
   c = Png r \<and> 0 < width r \<and> 0 < height r \<and> length (data r) = width r * height r * 4"
  by (auto simp: PNG_sync_read_def split: content.splits if_splits)

lemma pixelmatch_bound: "pixelmatch L i1 i2 w h = Inr (n, out) \<Longrightarrow> n \<le> w * h"
proof -
  assume "pixelmatch L i1 i2 w h = Inr (n, out)"
  then have "n = length (filter (\<lambda>i. exceeds L (pixel_at i1 i) (pixel_at i2 i)) [0..<w * h])"
    by (auto simp: pixelmatch_def split: if_splits)
  also have "\<dots> \<le> length [0..<w * h]" by (rule length_filter_le)
  finally show ?thesis by simp
qed

lemma pixelmatch_defined:
  "length i1 = w * h * 4 \<Longrightarrow> length i2 = w * h * 4 \<Longrightarrow> \<exists>n out. pixelmatch L i1 i2 w h = Inr (n, out)"
  by (simp add: pixelmatch_def)

subsection \<open>Steps of the orchestrator\<close>

lemma fs_read_Inr: "fs_read p w = Inr c \<Longrightarrow> files w p = Some (File c)"
  by (auto simp: fs_read_def split: option.splits node.splits)

lemma deleteTempFile_File:
  "files w p = Some (File c) \<Longrightarrow>
   deleteTempFile p w = w\<lparr>files := (files w)(p := None), events := events w @ [Deleted p]\<rparr>"
  by (simp add: deleteTempFile_def fs_unlink_def)

lemma deleteTempFile_None:
  "files w p = None \<Longrightarrow>
   files (deleteTempFile p w) = files w \<and> events (deleteTempFile p w) = events w"
  by (simp add: deleteTempFile_def fs_unlink_def)

lemma attachImage_Inr:
  assumes "attachImage ti p w = (Inr u, w')"
  shows "(\<exists>c. files w p = Some (File c)) \<and>
         w' = w\<lparr>events := events w @ [Attached (path_basename p) p]\<rparr>"
  using assms
  by (auto simp: attachImage_def testInfo_attach_def fs_read_def split: option.splits node.splits)

lemma comparePixels_Inr:
  assumes "comparePixels L a ti ctx w = Inr (bp, n, d)"
  obtains p b e ac orig act out where
    "project ti = Some p"
    and "bp = expectedBaselinePath (defaultBrowserType p) (isMobile_or_false ctx)"
    and "fs_read bp w = Inr b" and "PNG_sync_read b = Inr e"
    and "fs_read a w = Inr ac" and "PNG_sync_read ac = Inr orig"
    and "resizeIfNeeded L a e orig w = Inr act"
    and "pixelmatch L (data e) (data act) (width e) (height e) = Inr (n, out)"
    and "d = \<lparr>width = width e, height = height e, data = out\<rparr>"
  using assms
  by (auto simp: comparePixels_def and_then_def Let_def
           split: option.splits sum.splits prod.splits)

lemma getMismatchedPixelsCount_Some:
  assumes "fst (getMismatchedPixelsCount L tmpDir now a ti ctx w) = Some n"
  shows "\<exists>bp d. comparePixels L a ti ctx w = Inr (bp, n, d)"
  using assms
  by (auto simp: getMismatchedPixelsCount_def split: sum.splits prod.splits if_splits)

lemma land_streams_file:
  "files w p = Some (File c) \<Longrightarrow> \<exists>c'. files (land_streams ps w) p = Some (File c')"
proof (induction ps w arbitrary: c rule: land_streams.induct)
  case (1 w)
  then show ?case by simp
next
  case (2 k q x rest w)
  show ?case
  proof (cases "0 < k")
    case True
    with 2 show ?thesis by simp
  next
    case False
    show ?thesis
    proof (cases "fs_write q x w")
      case (Inl e)
      with False 2 show ?thesis by simp
    next
      case (Inr w')
      then have "files w' = (files w)(q \<mapsto> File x)" by (rule fs_write_files)
      with "2.prems" obtain c' where "files w' p = Some (File c')" by (cases "p = q") auto
      with False Inr "2.IH"(2) [of w' c'] show ?thesis by simp
    qed
  qed
qed

lemma event_loop_turn_file:
  "files w p = Some (File c) \<Longrightarrow> \<exists>c'. files (event_loop_turn w) p = Some (File c')"
  unfolding event_loop_turn_def by (rule land_streams_file) simp

lemma awaited_attachImage_Inr:
  assumes "awaited (attachImage ti q) w = (Inr u, w')"
  shows "files w p = Some (File c) \<longrightarrow> (\<exists>c'. files w' p = Some (File c'))"
proof
  assume f: "files w p = Some (File c)"
  from assms have a: "attachImage ti q (event_loop_turn w) = (Inr u, w')"
    by (auto simp: awaited_def Let_def split: list.splits)
  from attachImage_Inr [OF a] have "files w' = files (event_loop_turn w)" by simp
  with event_loop_turn_file [OF f] show "\<exists>c'. files w' p = Some (File c')" by simp
qed

lemma deleteTempFile_files:
  "files (deleteTempFile p w) q = files w q \<or> files (deleteTempFile p w) q = None"
  by (auto simp: deleteTempFile_def fs_unlink_def split: option.splits node.splits)

lemma reportMismatch_Inr:
  assumes r: "reportMismatch tmpDir now ti bp a diff w = (Inr u, w1)"
    and fa: "files w a = Some (File ac)"
  shows "files w1 a = None \<or> (\<exists>c. files w1 a = Some (File c))"
proof -
  from r obtain p where p: "project ti = Some p"
    by (cases "project ti") (auto simp: reportMismatch_def createUniqueFileName_def)
  define d where
    "d = getTempFilePath tmpDir (name p @ ''_'' @ number_toString now @ ''_'' @ diffImageFileName)"
  define w2 where "w2 = start_write_stream d (Png diff) w"
  have w2: "files w2 = files w" by (simp add: w2_def start_write_stream_def)
  from r p obtain u3 w3 u4 w4 u5 w5 where
    a3: "awaited (attachImage ti bp) w2 = (Inr u3, w3)"
    and a4: "awaited (attachImage ti a) w3 = (Inr u4, w4)"
    and a5: "awaited (attachImage ti d) w4 = (Inr u5, w5)"
    and w1: "w1 = deleteTempFile d w5"
    by (auto simp: reportMismatch_def createUniqueFileName_def writeDataToFile_def Let_def
          d_def w2_def split: prod.splits sum.splits)
  from fa w2 have "files w2 a = Some (File ac)" by simp
  with awaited_attachImage_Inr [OF a3] obtain c3 where "files w3 a = Some (File c3)" by blast
  with awaited_attachImage_Inr [OF a4] obtain c4 where "files w4 a = Some (File c4)" by blast
  with awaited_attachImage_Inr [OF a5] obtain c5 where "files w5 a = Some (File c5)" by blast
  with deleteTempFile_files [of d w5 a] show ?thesis unfolding w1 by auto
qed

lemma getMismatchedPixelsCount_Some_cases:
  assumes "getMismatchedPixelsCount L tmpDir now a ti ctx w = (Some n, w')"
  obtains bp d where "comparePixels L a ti ctx w = Inr (bp, n, d)"
    and "n = 0 \<longrightarrow> w' = deleteTempFile a w"
    and "0 < n \<longrightarrow> (\<exists>u w1. reportMismatch tmpDir now ti bp a d w = (Inr u, w1) \<and>
                              w' = deleteTempFile a w1)"
  using assms
  by (auto simp: getMismatchedPixelsCount_def split: sum.splits prod.splits if_splits)

subsection \<open>The orchestrator on the example worlds\<close>

lemmas example_defs =
  example_libs_def desktop_def shot_world_def chromium_test_def red_pixel_def blue_pixel_def
  two_red_pixels_def

lemmas orchestrator_defs =
  getMismatchedPixelsCount_def comparePixels_def resizeIfNeeded_def reportMismatch_def
  and_then_def expectedBaselinePath_def isMobile_or_false_def fs_read_def fs_write_def
  fs_unlink_def deleteTempFile_def attachImage_def testInfo_attach_def writeDataToFile_def
  start_write_stream_def event_loop_turn_def awaited_def createUniqueFileName_def
  PNG_sync_read_def sharp_resize_def pixelmatch_def pixel_at_def console_error_def
  comparison_failed_def Let_def

lemma ex_match:
  "fst (getMismatchedPixelsCount example_libs ''/tmp'' 1730000000000 ''/tmp/shot.png''
          chromium_test desktop (shot_world (Png red_pixel))) = Some 0 \<and>
   events (snd (getMismatchedPixelsCount example_libs ''/tmp'' 1730000000000 ''/tmp/shot.png''
          chromium_test desktop (shot_world (Png red_pixel)))) = [Deleted ''/tmp/shot.png'']"
  by (simp add: orchestrator_defs example_defs)

lemma tmp_diff_path:
  "getTempFilePath ''/tmp''
     ''chromium_1730000000000_difference_between_basaline_and_actual_screenshot.png'' =
   ''/tmp/chromium_1730000000000_difference_between_basaline_and_actual_screenshot.png''"
  by (simp add: getTempFilePath_def path_join_def posix_normalize_def)

lemma ex_mismatch:
  "fst (getMismatchedPixelsCount example_libs ''/tmp'' 1730000000000 ''/tmp/shot.png''
          chromium_test desktop (shot_world (Png blue_pixel))) = Some 1 \<and>
   events (snd (getMismatchedPixelsCount example_libs ''/tmp'' 1730000000000 ''/tmp/shot.png''
          chromium_test desktop (shot_world (Png blue_pixel)))) = 
     [Created ''/tmp/chromium_1730000000000_difference_between_basaline_and_actual_screenshot.png'',
      Attached ''baseline_homepage_logo.png'' ''./tests/test-data/baseline-images/baseline_homepage_logo.png'',
      Attached ''shot.png'' ''/tmp/shot.png'',
      Attached ''chromium_1730000000000_difference_between_basaline_and_actual_screenshot.png''
         ''/tmp/chromium_1730000000000_difference_between_basaline_and_actual_screenshot.png'',
      Deleted ''/tmp/chromium_1730000000000_difference_between_basaline_and_actual_screenshot.png'',
      Deleted ''/tmp/shot.png'']"
  by (simp add: orchestrator_defs example_defs number_toString_eval diffImageFileName_def
         tmp_diff_path path_basename_def)

lemma comparePixels_red:
  "comparePixels example_libs ''/tmp/shot.png'' chromium_test desktop (shot_world (Png red_pixel)) =
     Inr (''./tests/test-data/baseline-images/baseline_homepage_logo.png'', 0,
          \<lparr>width = 1, height = 1, data = [255, 0, 0, 255]\<rparr>)"
  by (simp add: orchestrator_defs example_defs)

subsection \<open>Visual regression orchestrator\<close>

text \<open>
  C1 says that the screenshot is deleted on every branch, the one of an exception
  included. Here the code departs from it: a screenshot that is not a PNG (a downloaded
  JPEG) makes the decoder throw, the function resolves with \<open>undefined\<close>, and the
  screenshot is still there.
\<close>

theorem screenshot_kept_when_decoding_fails:
  "fst (getMismatchedPixelsCount example_libs ''/tmp'' 1730000000000 ''/tmp/shot.png''
          chromium_test desktop (shot_world (Raw [255, 216, 255]))) = None \<and>
   checkFileExists ''/tmp/shot.png''
     (snd (getMismatchedPixelsCount example_libs ''/tmp'' 1730000000000 ''/tmp/shot.png''
             chromium_test desktop (shot_world (Raw [255, 216, 255]))))"
  by (simp add: orchestrator_defs example_defs checkFileExists_def)

text \<open>
  On the branches that return a count, the screenshot is gone when the function returns.
\<close>

lemma screenshot_deleted_on_success:
  assumes "getMismatchedPixelsCount L tmpDir now a ti ctx w = (Some n, w')"
  shows "\<not> checkFileExists a w'"
proof -
  from assms obtain bp d where
    cp: "comparePixels L a ti ctx w = Inr (bp, n, d)"
    and zero: "n = 0 \<longrightarrow> w' = deleteTempFile a w"
    and pos: "0 < n \<longrightarrow> (\<exists>u w1. reportMismatch tmpDir now ti bp a d w = (Inr u, w1) \<and>
                                 w' = deleteTempFile a w1)"
    by (rule getMismatchedPixelsCount_Some_cases)
  from cp obtain ac where ac: "fs_read a w = Inr ac"
    by (rule comparePixels_Inr)
  from ac have fa: "files w a = Some (File ac)" by (rule fs_read_Inr)
  have gone: "files (deleteTempFile a v) a = None"
    if "files v a = None \<or> (\<exists>c. files v a = Some (File c))" for v
    using that by (auto simp: deleteTempFile_None deleteTempFile_File)
  show ?thesis
  proof (cases "n = 0")
    case True
    with zero fa gone [of w] show ?thesis by (simp add: checkFileExists_def)
  next
    case False
    with pos obtain u w1 where
      r: "reportMismatch tmpDir now ti bp a d w = (Inr u, w1)"
      and w': "w' = deleteTempFile a w1"
      by auto
    from reportMismatch_Inr [OF r fa]
    show ?thesis unfolding w' by (simp add: checkFileExists_def gone)
  qed
qed

text \<open>
  C4 says that a comparison with a positive count creates one diff file and deletes it.
  Here the code departs from it. The write stream of the diff image is only started; on
  a slow disk its file is not there yet when the third attach reads it. The attach
  throws, the \<open>catch\<close> logs, the function resolves with \<open>undefined\<close> without
  reaching the delete of the diff file, and the stream then creates the file, which
  stays.
\<close>

theorem diff_file_left_when_attach_fails:
  "comparePixels example_libs ''/tmp/shot.png'' chromium_test desktop
     (slow_shot_world (Png blue_pixel)) =
     Inr (''./tests/test-data/baseline-images/baseline_homepage_logo.png'', 1,
          \<lparr>width = 1, height = 1, data = [255, 0, 0, 255]\<rparr>) \<and>
   fst (getMismatchedPixelsCount example_libs ''/tmp'' 1730000000000 ''/tmp/shot.png''
          chromium_test desktop (slow_shot_world (Png blue_pixel))) = None \<and>
   events (event_loop_idle
     (snd (getMismatchedPixelsCount example_libs ''/tmp'' 1730000000000 ''/tmp/shot.png''
             chromium_test desktop (slow_shot_world (Png blue_pixel))))) =
     [Attached ''baseline_homepage_logo.png''
        ''./tests/test-data/baseline-images/baseline_homepage_logo.png'',
      Attached ''shot.png'' ''/tmp/shot.png'',
      Created ''/tmp/chromium_1730000000000_difference_between_basaline_and_actual_screenshot.png''] \<and>
   checkFileExists
     ''/tmp/chromium_1730000000000_difference_between_basaline_and_actual_screenshot.png''
     (event_loop_idle
       (snd (getMismatchedPixelsCount example_libs ''/tmp'' 1730000000000 ''/tmp/shot.png''
               chromium_test desktop (slow_shot_world (Png blue_pixel)))))"
  by (simp add: orchestrator_defs example_defs slow_shot_world_def number_toString_eval
        diffImageFileName_def tmp_diff_path path_basename_def checkFileExists_def
        event_loop_idle_def)

text \<open>
  C7: a screenshot of the baseline's width and height is used as decoded; any other is
  replaced by its resampling to exactly the baseline's width and height. Either way the
  image compared has the baseline's size, and the comparison returns a count.
\<close>

theorem resize_to_baseline:
  assumes e: "PNG_sync_read b = Inr e"
    and c: "fs_read a w = Inr c" and orig: "PNG_sync_read c = Inr orig"
  shows "(width e = width orig \<and> height e = height orig \<longrightarrow>
            resizeIfNeeded L a e orig w = Inr orig) \<and>
         (width e \<noteq> width orig \<or> height e \<noteq> height orig \<longrightarrow>
            resizeIfNeeded L a e orig w =
              Inr \<lparr>width = width e, height = height e,
                   data = concat (map (\<lambda>i. rgba_bytes (resample L orig (width e) (height e) i))
                                   [0..<width e * height e])\<rparr>) \<and>
         (\<exists>act n out. resizeIfNeeded L a e orig w = Inr act \<and>
            width act = width e \<and> height act = height e \<and>
            pixelmatch L (data e) (data act) (width e) (height e) = Inr (n, out))"
proof -
  from e have we: "0 < width e" "0 < height e" "length (data e) = width e * height e * 4"
    using PNG_sync_read_Inr by blast+
  from orig have lo: "length (data orig) = width orig * height orig * 4"
    using PNG_sync_read_Inr by blast
  let ?r = "\<lparr>width = width e, height = height e,
              data = concat (map (\<lambda>i. rgba_bytes (resample L orig (width e) (height e) i))
                              [0..<width e * height e])\<rparr>"
  have same: "resizeIfNeeded L a e orig w = Inr orig"
    if "width e = width orig \<and> height e = height orig"
    using that by (simp add: resizeIfNeeded_def)
  have other: "resizeIfNeeded L a e orig w = Inr ?r"
    if "width e \<noteq> width orig \<or> height e \<noteq> height orig"
  proof -
    have "sharp_resize L c (width e) (height e) = Inr (Png ?r)"
      by (simp add: sharp_resize_def orig)
    moreover have "PNG_sync_read (Png ?r) = Inr ?r"
      using we by (simp add: PNG_sync_read_def length_concat_rgba)
    ultimately show ?thesis
      using that c by (simp add: resizeIfNeeded_def and_then_def)
  qed
  have "\<exists>act n out. resizeIfNeeded L a e orig w = Inr act \<and>
            width act = width e \<and> height act = height e \<and>
            pixelmatch L (data e) (data act) (width e) (height e) = Inr (n, out)"
  proof (cases "width e = width orig \<and> height e = height orig")
    case True
    with lo have "length (data orig) = width e * height e * 4" by simp
    with we(3) obtain n out where
      "pixelmatch L (data e) (data orig) (width e) (height e) = Inr (n, out)"
      using pixelmatch_defined by blast
    with True same show ?thesis by auto
  next
    case False
    have "length (data ?r) = width e * height e * 4" by (simp add: length_concat_rgba)
    with we(3) obtain n out where
      "pixelmatch L (data e) (data ?r) (width e) (height e) = Inr (n, out)"
      using pixelmatch_defined by blast
    moreover from False have "resizeIfNeeded L a e orig w = Inr ?r" by (intro other) simp
    ultimately show ?thesis by auto
  qed
  with same other show ?thesis by blast
qed

theorem resize_to_baseline_witness:
  "resizeIfNeeded example_libs ''/tmp/shot.png'' red_pixel two_red_pixels
     (shot_world (Png two_red_pixels)) =
   Inr \<lparr>width = 1, height = 1, data = [255, 0, 0, 255]\<rparr> \<and>
   resizeIfNeeded example_libs ''/tmp/shot.png'' red_pixel red_pixel
     (shot_world (Png red_pixel)) = Inr red_pixel"
proof -
  have e: "PNG_sync_read (Png red_pixel) = Inr red_pixel"
    by (simp add: PNG_sync_read_def red_pixel_def)
  have c2: "fs_read ''/tmp/shot.png'' (shot_world (Png two_red_pixels)) = Inr (Png two_red_pixels)"
    by (simp add: fs_read_def shot_world_def)
  have o2: "PNG_sync_read (Png two_red_pixels) = Inr two_red_pixels"
    by (simp add: PNG_sync_read_def two_red_pixels_def)
  have c1: "fs_read ''/tmp/shot.png'' (shot_world (Png red_pixel)) = Inr (Png red_pixel)"
    by (simp add: fs_read_def shot_world_def)
  from resize_to_baseline [OF e c2 o2, of example_libs]
  have "resizeIfNeeded example_libs ''/tmp/shot.png'' red_pixel two_red_pixels
          (shot_world (Png two_red_pixels)) =
        Inr \<lparr>width = 1, height = 1, data = [255, 0, 0, 255]\<rparr>"
    by (simp add: red_pixel_def two_red_pixels_def example_libs_def)
  moreover
  from resize_to_baseline [OF e c1 e, of example_libs]
  have "resizeIfNeeded example_libs ''/tmp/shot.png'' red_pixel red_pixel
          (shot_world (Png red_pixel)) = Inr red_pixel"
    by simp
  ultimately show ?thesis by (rule conjI)
qed

text \<open>
  C8: the baseline path is a function of the browser type and the mobile flag with two
  values: the WebKit mobile baseline for mobile and \<open>webkit\<close>, the default baseline
  for every other pair; it is the path of the baseline the orchestrator reads.
\<close>

theorem baseline_selection:
  "(expectedBaselinePath browserType mobile =
      ''./tests/test-data/baseline-images/baseline_homepage_logo_Webkit_Mobile.png'') =
     (mobile \<and> browserType = Some ''webkit'') \<and>
   (expectedBaselinePath browserType mobile =
      ''./tests/test-data/baseline-images/baseline_homepage_logo.png'') =
     (\<not> (mobile \<and> browserType = Some ''webkit'')) \<and>
   (project ti = Some p \<and> comparePixels L a ti ctx w = Inr (bp, n, d) \<longrightarrow>
      bp = expectedBaselinePath (defaultBrowserType p) (isMobile_or_false ctx))"
proof -
  have "project ti = Some p \<and> comparePixels L a ti ctx w = Inr (bp, n, d) \<longrightarrow>
      bp = expectedBaselinePath (defaultBrowserType p) (isMobile_or_false ctx)"
    by (auto elim: comparePixels_Inr)
  then show ?thesis by (simp add: expectedBaselinePath_def)
qed

theorem baseline_selection_witness:
  "expectedBaselinePath (Some ''webkit'') True =
     ''./tests/test-data/baseline-images/baseline_homepage_logo_Webkit_Mobile.png'' \<and>
   expectedBaselinePath (Some ''webkit'') False =
     ''./tests/test-data/baseline-images/baseline_homepage_logo.png'' \<and>
   expectedBaselinePath (Some ''chromium'') True =
     ''./tests/test-data/baseline-images/baseline_homepage_logo.png'' \<and>
   ''./tests/test-data/baseline-images/baseline_homepage_logo.png'' =
     expectedBaselinePath (Some ''chromium'') (isMobile_or_false desktop)"
proof -
  let ?p = "\<lparr>name = ''chromium'', defaultBrowserType = Some ''chromium''\<rparr>"
  have p: "project chromium_test = Some ?p" by (simp add: chromium_test_def)
  note th = baseline_selection
              [of _ _ chromium_test ?p example_libs "''/tmp/shot.png''" desktop
                  "shot_world (Png red_pixel)"
                  "''./tests/test-data/baseline-images/baseline_homepage_logo.png''" 0
                  "\<lparr>width = 1, height = 1, data = [255, 0, 0, 255]\<rparr>"]
  from th [of "Some ''webkit''" True]
  have 1: "expectedBaselinePath (Some ''webkit'') True =
     ''./tests/test-data/baseline-images/baseline_homepage_logo_Webkit_Mobile.png''"
    by simp
  from th [of "Some ''webkit''" False]
  have 2: "expectedBaselinePath (Some ''webkit'') False =
     ''./tests/test-data/baseline-images/baseline_homepage_logo.png''"
    by simp
  from th [of "Some ''chromium''" True]
  have 3: "expectedBaselinePath (Some ''chromium'') True =
     ''./tests/test-data/baseline-images/baseline_homepage_logo.png''"
    by simp
  from th [of "Some ''chromium''" True] p comparePixels_red
  have 4: "''./tests/test-data/baseline-images/baseline_homepage_logo.png'' =
     expectedBaselinePath (Some ''chromium'') (isMobile_or_false desktop)"
    by simp
  from 1 2 3 4 show ?thesis by simp
qed

text \<open>
  C10: a count that \<open>getMismatchedPixelsCount\<close> returns is at most the number of
  pixels, width times height, of the baseline image it selected and decoded.
\<close>

theorem mismatch_count_bounded:
  assumes "fst (getMismatchedPixelsCount L tmpDir now a ti ctx w) = Some n"
  shows "\<exists>p b e. project ti = Some p \<and>
           fs_read (expectedBaselinePath (defaultBrowserType p) (isMobile_or_false ctx)) w = Inr b \<and>
           PNG_sync_read b = Inr e \<and> n \<le> width e * height e"
proof -
  from assms obtain bp d where cp: "comparePixels L a ti ctx w = Inr (bp, n, d)"
    using getMismatchedPixelsCount_Some by blast
  from cp obtain p b e and act :: raster and out where
    p: "project ti = Some p"
    and bp: "bp = expectedBaselinePath (defaultBrowserType p) (isMobile_or_false ctx)"
    and b: "fs_read bp w = Inr b" and e: "PNG_sync_read b = Inr e"
    and pm: "pixelmatch L (data e) (data act) (width e) (height e) = Inr (n, out)"
    by (rule comparePixels_Inr)
  from pm have "n \<le> width e * height e" by (rule pixelmatch_bound)
  with p b e show ?thesis unfolding bp by blast
qed

theorem mismatch_count_bounded_witness:
  "\<exists>p b e. project chromium_test = Some p \<and>
     fs_read (expectedBaselinePath (defaultBrowserType p) (isMobile_or_false desktop))
       (shot_world (Png blue_pixel)) = Inr b \<and>
     PNG_sync_read b = Inr e \<and> (1::nat) \<le> width e * height e"
  using ex_mismatch
  by (intro mismatch_count_bounded
        [of example_libs "''/tmp''" 1730000000000 "''/tmp/shot.png''" chromium_test desktop
            "shot_world (Png blue_pixel)" 1]) simp

end
